theory Spec2Isabelle
  imports Main "HOL-Library.Multiset"
begin

section \<open>Product utilities: the data model\<close>

text \<open>
  The module \<^verbatim>\<open>saleor/product/utils/__init__.py\<close> holds four functions over the shop's
  product data. Exceptions are values: a function that can raise returns
  \<open>error + 'a\<close>, with \<open>Inl\<close> for the exception.
\<close>

datatype error = KeyError | TypeError | ValueError | DatabaseError

subsection \<open>Orders and order lines\<close>

text \<open>
  Only the attributes the module reads are kept. The key type \<open>'k\<close> (a UUID), the
  money type \<open>'m\<close> (\<^verbatim>\<open>TaxedMoney\<close>) and the time type \<open>'t\<close> belong to code outside the
  module and stay type parameters. Their operators are arguments of the model, and each
  may raise: the addition \<^verbatim>\<open>+=\<close> of the money type (amounts in different currencies
  cannot be added), the comparison \<^verbatim>\<open>>=\<close> of the time type (see \<open>py_ge\<close> below), and the
  zero of a currency, which is total.
\<close>

record ('k, 'm) order_line =
  order_id :: 'k
  total_price :: 'm

record 't order =
  created_at :: 't

subsection \<open>Categories, products, listings, variants\<close>

text \<open>
  A category is a node of the category tree: its primary key and its child categories.
  Products point to their category (a nullable foreign key), channel listings and
  variants point to their product.
\<close>

datatype category = Category (cat_id: int) (children: "category list")

record product =
  prod_id :: int
  category_id :: "int option"

record product_channel_listing =
  listing_id :: int
  product_id :: int
  channel_id :: int
  is_published :: bool
  published_at :: "int option"

record product_variant =
  variant_id :: int
  variant_product_id :: int

record database =
  category_table :: "category list"
  product_table :: "product list"
  listing_table :: "product_channel_listing list"
  variant_table :: "product_variant list"

section \<open>calculate\_revenue\_for\_variant\<close>

text \<open>
  \<^verbatim>\<open>
  revenue = zero_taxed_money(currency_code)
  for order_line in order_lines:
      order = orders_dict[order_line.order_id]
      if order.created_at >= start_date:
          revenue += order_line.total_price
  return revenue
  \<close>
  The loop with its accumulator. The subscript \<^verbatim>\<open>orders_dict[...]\<close> raises
  \<^verbatim>\<open>KeyError\<close> on a missing key; the comparison \<open>ge\<close> and the addition \<open>add\<close> may raise
  too. The first exception ends the loop and is the result.
\<close>

fun revenue_loop ::
  "('m \<Rightarrow> 'm \<Rightarrow> error + 'm) \<Rightarrow> ('t \<Rightarrow> 't \<Rightarrow> error + bool) \<Rightarrow> 't \<Rightarrow> ('k \<rightharpoonup> 't order) \<Rightarrow> 'm
     \<Rightarrow> ('k, 'm) order_line list \<Rightarrow> error + 'm" where
  "revenue_loop add ge start_date orders_dict revenue [] = Inr revenue"
| "revenue_loop add ge start_date orders_dict revenue (order_line # rest) =
     (case orders_dict (order_id order_line) of
        None \<Rightarrow> Inl KeyError
      | Some order \<Rightarrow>
          (case ge (created_at order) start_date of
             Inl e \<Rightarrow> Inl e
           | Inr True \<Rightarrow>
               (case add revenue (total_price order_line) of
                  Inl e \<Rightarrow> Inl e
                | Inr revenue' \<Rightarrow> revenue_loop add ge start_date orders_dict revenue' rest)
           | Inr False \<Rightarrow> revenue_loop add ge start_date orders_dict revenue rest))"

definition calculate_revenue_for_variant ::
  "(string \<Rightarrow> 'm) \<Rightarrow> ('m \<Rightarrow> 'm \<Rightarrow> error + 'm) \<Rightarrow> ('t \<Rightarrow> 't \<Rightarrow> error + bool)
     \<Rightarrow> product_variant \<Rightarrow> 't \<Rightarrow> ('k, 'm) order_line list \<Rightarrow> ('k \<rightharpoonup> 't order) \<Rightarrow> string
     \<Rightarrow> error + 'm" where
  "calculate_revenue_for_variant zero_taxed_money add ge variant start_date order_lines
       orders_dict currency_code =
     revenue_loop add ge start_date orders_dict (zero_taxed_money currency_code) order_lines"



section \<open>Querysets\<close>

text \<open>
  A queryset of the object-relational mapping is lazy: it is the description of a query,
  not its rows. Building, filtering and combining querysets reads nothing; the query is
  sent when the code iterates the queryset or updates or deletes through it, and a
  queryset given to \<^verbatim>\<open>__in\<close> becomes a subquery of the new query. The model keeps the
  description as a value and runs it with a \<open>fetch\<close> function on the database of that
  moment.

  For products the module builds three kinds: \<^verbatim>\<open>Product.objects.none()\<close>,
  \<^verbatim>\<open>category.products.all()\<close> (the products whose foreign key is that category's primary
  key) and the union \<^verbatim>\<open>a | b\<close>.
\<close>

datatype product_queryset =
  EmptyQuerySet
  | CategoryProducts int
  | Combined product_queryset product_queryset

text \<open>The operator \<^verbatim>\<open>|\<close>: an empty queryset on either side gives the other side back.\<close>

fun qs_or :: "product_queryset \<Rightarrow> product_queryset \<Rightarrow> product_queryset" where
  "qs_or EmptyQuerySet other = other"
| "qs_or self EmptyQuerySet = self"
| "qs_or self other = Combined self other"

fun selects :: "product_queryset \<Rightarrow> product \<Rightarrow> bool" where
  "selects EmptyQuerySet p = False"
| "selects (CategoryProducts k) p = (category_id p = Some k)"
| "selects (Combined a b) p = (selects a p \<or> selects b p)"

text \<open>The number of \<^verbatim>\<open>category.products.all()\<close> querysets joined in a queryset.\<close>

fun disjuncts :: "product_queryset \<Rightarrow> nat" where
  "disjuncts EmptyQuerySet = 0"
| "disjuncts (CategoryProducts k) = 1"
| "disjuncts (Combined a b) = disjuncts a + disjuncts b"

definition fetch_products :: "database \<Rightarrow> product_queryset \<Rightarrow> product list" where
  "fetch_products db qs = filter (selects qs) (product_table db)"

text \<open>
  \<^verbatim>\<open>ProductChannelListing.objects.filter(product__in=products)\<close>: the product queryset
  becomes a subquery, run whenever the listing query runs.
\<close>

datatype listing_queryset = ListingsOfProducts product_queryset

fun in_listing_queryset :: "database \<Rightarrow> listing_queryset \<Rightarrow> product_channel_listing \<Rightarrow> bool" where
  "in_listing_queryset db (ListingsOfProducts qs) l =
     (product_id l \<in> set (map prod_id (fetch_products db qs)))"

definition fetch_listings :: "database \<Rightarrow> listing_queryset \<Rightarrow> product_channel_listing list" where
  "fetch_listings db lq = filter (in_listing_queryset db lq) (listing_table db)"

text \<open>\<^verbatim>\<open>.update(is_published=False, published_at=None)\<close> on a listing queryset.\<close>

definition update_listings :: "database \<Rightarrow> listing_queryset \<Rightarrow> database" where
  "update_listings db lq =
     db\<lparr>listing_table :=
          map (\<lambda>l. if in_listing_queryset db lq l
                    then l\<lparr>is_published := False, published_at := None\<rparr>
                    else l)
              (listing_table db)\<rparr>"

text \<open>\<^verbatim>\<open>.values_list("channel_id", flat=True)\<close> on a listing queryset.\<close>

definition values_list_channel_id :: "database \<Rightarrow> listing_queryset \<Rightarrow> int list" where
  "values_list_channel_id db lq = map channel_id (fetch_listings db lq)"

section \<open>The category tree\<close>

text \<open>
  Modelled from the spec: \<^verbatim>\<open>Category.get_descendants\<close> comes from the tree library the
  category model is built on and is not in the module. The spec speaks of "all products
  under a category subtree" and of "tree traversal": the descendants of a category are
  the categories at every level below it, in preorder, the category itself left out.
\<close>

fun get_descendants :: "category \<Rightarrow> category list" where
  "get_descendants (Category pk cs) = concat (map (\<lambda>c. c # get_descendants c) cs)"

text \<open>The same notion as a relation: a child, or a child of a descendant.\<close>

inductive descendant_of :: "category \<Rightarrow> category \<Rightarrow> bool" where
  child: "d \<in> set (children c) \<Longrightarrow> descendant_of c d"
| below: "descendant_of c d \<Longrightarrow> e \<in> set (children d) \<Longrightarrow> descendant_of c e"

text \<open>Every row of the category table: the roots and all that is below them.\<close>

definition all_categories :: "category list \<Rightarrow> category list" where
  "all_categories roots = concat (map (\<lambda>r. r # get_descendants r) roots)"

text \<open>
  \<^verbatim>\<open>Category.objects.select_for_update().filter(pk__in=categories_ids)\<close>. The query has
  no \<^verbatim>\<open>ORDER BY\<close>: the database yields the selected rows in an order of its own. The
  model yields them in the order of the table (for categories, the preorder of the
  tree); the general statements about \<open>delete_categories\<close> below speak of the rows
  up to their order.
\<close>

datatype category_queryset = CategoriesWithPk "int list"

fun fetch_categories :: "database \<Rightarrow> category_queryset \<Rightarrow> category list" where
  "fetch_categories db (CategoriesWithPk ids) =
     filter (\<lambda>c. cat_id c \<in> set ids) (all_categories (category_table db))"

section \<open>collect\_categories\_tree\_products\<close>

text \<open>
  \<^verbatim>\<open>
  products = category.products.all()
  descendants = category.get_descendants()
  for descendant in descendants:
      products = products | descendant.products.all()
  return products
  \<close>
  The result is a queryset: nothing is read from the product table here.
\<close>

fun collect_loop :: "product_queryset \<Rightarrow> category list \<Rightarrow> product_queryset" where
  "collect_loop products [] = products"
| "collect_loop products (descendant # rest) =
     collect_loop (qs_or products (CategoryProducts (cat_id descendant))) rest"

definition collect_categories_tree_products :: "category \<Rightarrow> product_queryset" where
  "collect_categories_tree_products category =
     collect_loop (CategoryProducts (cat_id category)) (get_descendants category)"

section \<open>get\_products\_ids\_without\_variants\<close>

text \<open>
  \<^verbatim>\<open>
  products_ids = [product.id for product in products_list]
  products_ids_without_variants = Product.objects.filter(
      id__in=products_ids, variants__isnull=True
  ).values_list("id", flat=True)
  return list(products_ids_without_variants)
  \<close>
  The query runs over the product table: the rows whose id is among the given ids and
  that no variant row points to.
\<close>

definition variants_of :: "database \<Rightarrow> int \<Rightarrow> product_variant list" where
  "variants_of db pid = filter (\<lambda>v. variant_product_id v = pid) (variant_table db)"

definition get_products_ids_without_variants :: "database \<Rightarrow> product list \<Rightarrow> int list" where
  "get_products_ids_without_variants db products_list =
     (let products_ids = map prod_id products_list
      in map prod_id
           (filter (\<lambda>p. prod_id p \<in> set products_ids \<and> variants_of db (prod_id p) = [])
                   (product_table db)))"

section \<open>delete\_categories\<close>

subsection \<open>What the persistence layer does on delete\<close>

text \<open>
  Modelled from the spec: \<^verbatim>\<open>QuerySet.delete\<close> on categories is the persistence
  layer's, with the category model's foreign keys, and is not in the module. The spec
  speaks of the "cascading deletion of a category tree with side effects on products":
  a selected category goes with its whole subtree, and no product row keeps a reference
  to a deleted category (the reference becomes null). Listings are left as they are.
\<close>

fun prune :: "int list \<Rightarrow> category \<Rightarrow> category" where
  "prune ids (Category pk cs) =
     Category pk (map (prune ids) (filter (\<lambda>c. cat_id c \<notin> set ids) cs))"

definition prune_roots :: "int list \<Rightarrow> category list \<Rightarrow> category list" where
  "prune_roots ids roots = map (prune ids) (filter (\<lambda>c. cat_id c \<notin> set ids) roots)"

definition deleted_pks :: "database \<Rightarrow> category_queryset \<Rightarrow> int list" where
  "deleted_pks db cq =
     remdups
       (concat (map (\<lambda>c. cat_id c # map cat_id (get_descendants c)) (fetch_categories db cq)))"

definition set_null :: "int list \<Rightarrow> product \<Rightarrow> product" where
  "set_null pks p =
     (case category_id p of
        None \<Rightarrow> p
      | Some k \<Rightarrow> if k \<in> set pks then p\<lparr>category_id := None\<rparr> else p)"

fun delete_category_rows :: "database \<Rightarrow> category_queryset \<Rightarrow> database" where
  "delete_category_rows db (CategoriesWithPk ids) =
     db\<lparr>category_table := prune_roots ids (category_table db),
        product_table := map (set_null (deleted_pks db (CategoriesWithPk ids))) (product_table db)\<rparr>"

subsection \<open>Events and the record of what was done\<close>

text \<open>
  Modelled from the spec: \<^verbatim>\<open>call_event\<close> and the functions it is given
  (\<^verbatim>\<open>manager.category_deleted\<close>, \<^verbatim>\<open>manager.product_updated\<close>,
  \<^verbatim>\<open>mark_active_catalogue_promotion_rules_as_dirty\<close>) are not in the module; the spec
  says the function "emits notification events". An event is the call with its
  arguments; the manager \<open>'g\<close> and the webhooks \<open>'w\<close> belong to code outside the module.
\<close>

datatype webhook_event_type = CATEGORY_DELETED | PRODUCT_UPDATED

datatype ('g, 'w) event =
  CategoryDeleted 'g category 'w
  | ProductUpdated 'g product 'w
  | PromotionRulesDirty "int set"

text \<open>
  The function's side effects, in the order they happen: the update of listing rows
  (with the ids of the rows it touched), the delete of category rows (with the primary
  keys that went) and the events.
\<close>

datatype ('g, 'w) action =
  UpdateListings "int list"
  | DeleteCategories "int list"
  | CallEvent "('g, 'w) event"

text \<open>
  The statements the function sends to the database. Whether one fails is the
  persistence layer's matter: the model takes it as an argument, \<open>fails\<close>, and a
  failing statement raises \<^verbatim>\<open>DatabaseError\<close> at its place in the function. A category
  row comes with the tree below it, so reading the descendants is part of
  \<open>SelectCategories\<close>.
\<close>

datatype statement =
  SelectCategories
  | UpdateListingRows
  | SelectProducts
  | DeleteCategoryRows
  | SelectChannelIds

subsection \<open>The function body\<close>

text \<open>
  \<^verbatim>\<open>
  for category in categories:
      products = products | collect_categories_tree_products(category)
  \<close>
\<close>

fun products_loop :: "product_queryset \<Rightarrow> category list \<Rightarrow> product_queryset" where
  "products_loop products [] = products"
| "products_loop products (category # rest) =
     products_loop (qs_or products (collect_categories_tree_products category)) rest"

text \<open>
  \<^verbatim>\<open>
  for category in category_instances:
      call_event(manager.category_deleted, category, webhooks=webhooks)
  \<close>
\<close>

fun category_deleted_loop :: "'g \<Rightarrow> 'w \<Rightarrow> category list \<Rightarrow> ('g, 'w) action list" where
  "category_deleted_loop manager webhooks [] = []"
| "category_deleted_loop manager webhooks (category # rest) =
     CallEvent (CategoryDeleted manager category webhooks)
       # category_deleted_loop manager webhooks rest"

text \<open>
  \<^verbatim>\<open>
  for product in products:
      call_event(manager.product_updated, product, webhooks=webhooks)
  \<close>
\<close>

fun product_updated_loop :: "'g \<Rightarrow> 'w \<Rightarrow> product list \<Rightarrow> ('g, 'w) action list" where
  "product_updated_loop manager webhooks [] = []"
| "product_updated_loop manager webhooks (product # rest) =
     CallEvent (ProductUpdated manager product webhooks)
       # product_updated_loop manager webhooks rest"

text \<open>
  The body, statement by statement. It returns the exception or \<open>()\<close>, the database as
  the body left it, and the side effects so far.
  \<^item> \<open>categories\<close> is run by the first loop and keeps its rows, so
    \<^verbatim>\<open>list(categories)\<close> gives the same rows back; \<^verbatim>\<open>categories.delete()\<close> runs the
    query again.
  \<^item> \<^verbatim>\<open>categories.prefetch_related("products")\<close> builds a queryset that is dropped.
  \<^item> \<open>products\<close> is run by \<^verbatim>\<open>list(products)\<close>, after the update and before the delete.
  \<^item> \<open>product_channel_listing\<close> is run twice: by \<^verbatim>\<open>.update\<close>, and again by
    \<^verbatim>\<open>.values_list\<close> on the last but one line, after the delete.
\<close>

definition delete_categories_body ::
  "(statement \<Rightarrow> bool) \<Rightarrow> (webhook_event_type \<Rightarrow> 'w) \<Rightarrow> int list \<Rightarrow> 'g \<Rightarrow> database
     \<Rightarrow> (error + unit) \<times> database \<times> ('g, 'w) action list" where
  "delete_categories_body fails get_webhooks_for_event categories_ids manager db =
     (let categories = CategoriesWithPk categories_ids in
      if fails SelectCategories then (Inl DatabaseError, db, []) else
      let category_rows = fetch_categories db categories;
          products = products_loop EmptyQuerySet category_rows;
          product_channel_listing = ListingsOfProducts products in
      if fails UpdateListingRows then (Inl DatabaseError, db, []) else
      let db1 = update_listings db product_channel_listing;
          done1 = [UpdateListings (map listing_id (fetch_listings db product_channel_listing))] in
      if fails SelectProducts then (Inl DatabaseError, db1, done1) else
      let products_list = fetch_products db1 products;
          category_instances = category_rows in
      if fails DeleteCategoryRows then (Inl DatabaseError, db1, done1) else
      let db2 = delete_category_rows db1 categories;
          done2 = done1 @ [DeleteCategories (deleted_pks db1 categories)];
          webhooks = get_webhooks_for_event CATEGORY_DELETED;
          done3 = done2 @ category_deleted_loop manager webhooks category_instances;
          webhooks = get_webhooks_for_event PRODUCT_UPDATED;
          done4 = done3 @ product_updated_loop manager webhooks products_list in
      if fails SelectChannelIds then (Inl DatabaseError, db2, done4) else
      let channel_ids = set (values_list_channel_id db2 product_channel_listing)
      in (Inr (), db2, done4 @ [CallEvent (PromotionRulesDirty channel_ids)]))"

subsection \<open>The transaction\<close>

text \<open>
  Modelled from the spec: the decorator \<^verbatim>\<open>traced_atomic_transaction\<close> is not in the
  module; the spec says the side effects happen "inside a transaction boundary". When
  the body raises, the database is the one the call started from; when it returns, the
  body's changes stay.
\<close>

definition traced_atomic_transaction ::
  "(database \<Rightarrow> (error + 'a) \<times> database \<times> 'e list) \<Rightarrow> database
     \<Rightarrow> (error + 'a) \<times> database \<times> 'e list" where
  "traced_atomic_transaction body db =
     (case body db of
        (Inl e, db', effects) \<Rightarrow> (Inl e, db, effects)
      | (Inr v, db', effects) \<Rightarrow> (Inr v, db', effects))"

definition delete_categories ::
  "(statement \<Rightarrow> bool) \<Rightarrow> (webhook_event_type \<Rightarrow> 'w) \<Rightarrow> int list \<Rightarrow> 'g \<Rightarrow> database
     \<Rightarrow> (error + unit) \<times> database \<times> ('g, 'w) action list" where
  "delete_categories fails get_webhooks_for_event categories_ids manager =
     traced_atomic_transaction
       (delete_categories_body fails get_webhooks_for_event categories_ids manager)"

section \<open>Example data\<close>

text \<open>
  A small shop: the category tree \<open>1 > 2 > 3\<close> and the lone category \<open>4\<close>; four products,
  one of them without a category; three published listings in two channels; one
  variant, of product \<open>10\<close>.
\<close>

definition example_tree :: category where
  "example_tree = Category 1 [Category 2 [Category 3 []]]"

definition example_database :: database where
  "example_database =
     \<lparr>category_table = [example_tree, Category 4 []],
      product_table =
        [\<lparr>prod_id = 10, category_id = Some 1\<rparr>,
         \<lparr>prod_id = 11, category_id = Some 3\<rparr>,
         \<lparr>prod_id = 12, category_id = Some 4\<rparr>,
         \<lparr>prod_id = 13, category_id = None\<rparr>],
      listing_table =
        [\<lparr>listing_id = 100, product_id = 10, channel_id = 1, is_published = True,
            published_at = Some 5\<rparr>,
         \<lparr>listing_id = 101, product_id = 11, channel_id = 2, is_published = True,
            published_at = Some 6\<rparr>,
         \<lparr>listing_id = 102, product_id = 12, channel_id = 1, is_published = True,
            published_at = Some 7\<rparr>],
      variant_table = [\<lparr>variant_id = 1000, variant_product_id = 10\<rparr>]\<rparr>"

text \<open>Two orders, made at times \<open>10\<close> and \<open>20\<close>, and three order lines.\<close>

definition example_orders :: "nat \<rightharpoonup> nat order" where
  "example_orders = [1 \<mapsto> \<lparr>created_at = 10\<rparr>, 2 \<mapsto> \<lparr>created_at = 20\<rparr>]"



text \<open>The same lines with prices that are plain numbers, for counting additions.\<close>

definition example_counted_lines :: "(nat, nat) order_line list" where
  "example_counted_lines =
     [\<lparr>order_id = 1, total_price = 5\<rparr>,
      \<lparr>order_id = 2, total_price = 7\<rparr>,
      \<lparr>order_id = 2, total_price = 30\<rparr>]"

definition example_variant :: product_variant where
  "example_variant = \<lparr>variant_id = 1000, variant_product_id = 10\<rparr>"

text \<open>
  The database after \<^verbatim>\<open>delete_categories([1], manager)\<close> on the example: the tree under
  category \<open>1\<close> is gone, products \<open>10\<close> and \<open>11\<close> have lost their category and their
  listings are unpublished.
\<close>

definition example_after :: database where
  "example_after =
     \<lparr>category_table = [Category 4 []],
      product_table =
        [\<lparr>prod_id = 10, category_id = None\<rparr>,
         \<lparr>prod_id = 11, category_id = None\<rparr>,
         \<lparr>prod_id = 12, category_id = Some 4\<rparr>,
         \<lparr>prod_id = 13, category_id = None\<rparr>],
      listing_table =
        [\<lparr>listing_id = 100, product_id = 10, channel_id = 1, is_published = False,
            published_at = None\<rparr>,
         \<lparr>listing_id = 101, product_id = 11, channel_id = 2, is_published = False,
            published_at = None\<rparr>,
         \<lparr>listing_id = 102, product_id = 12, channel_id = 1, is_published = True,
            published_at = Some 7\<rparr>],
      variant_table = [\<lparr>variant_id = 1000, variant_product_id = 10\<rparr>]\<rparr>"

section \<open>Properties of calculate\_revenue\_for\_variant\<close>

lemma revenue_loop_present:
  "\<forall>l\<in>set ls. order_id l \<in> dom od \<Longrightarrow>
   revenue_loop (\<lambda>a b. Inr (add a b)) (\<lambda>c s. Inr (ge c s)) sd od acc ls =
     Inr (foldl add acc (map total_price
            (filter (\<lambda>l. ge (created_at (the (od (order_id l)))) sd) ls)))"
  by (induction ls arbitrary: acc) (auto split: option.splits)





text \<open>
  C9. The variant does not enter the computation: two calls that differ only in the
  variant return the same value or raise the same exception.
\<close>

theorem calculate_revenue_ignores_variant:
  "calculate_revenue_for_variant zero_taxed_money add ge variant start_date order_lines
       orders_dict currency_code =
   calculate_revenue_for_variant zero_taxed_money add ge variant' start_date order_lines
       orders_dict currency_code"
  by (simp add: calculate_revenue_for_variant_def)




section \<open>Properties of querysets and of the category tree\<close>

lemma selects_qs_or: "selects (qs_or a b) p = (selects a p \<or> selects b p)"
  by (cases "(a, b)" rule: qs_or.cases) simp_all

lemma selects_collect_loop:
  "selects (collect_loop q ds) p =
     (selects q p \<or> (\<exists>d\<in>set ds. category_id p = Some (cat_id d)))"
  by (induction ds arbitrary: q) (auto simp: selects_qs_or)

lemma selects_collect:
  "selects (collect_categories_tree_products c) p =
     (category_id p = Some (cat_id c) \<or>
      (\<exists>d\<in>set (get_descendants c). category_id p = Some (cat_id d)))"
  by (simp add: collect_categories_tree_products_def selects_collect_loop)

lemma children_are_descendants: "d \<in> set (children c) \<Longrightarrow> d \<in> set (get_descendants c)"
  by (cases c) auto

lemma descendant_of_step:
  "descendant_of ch d \<Longrightarrow> ch \<in> set (children c) \<Longrightarrow> descendant_of c d"
  by (induction rule: descendant_of.induct) (auto intro: descendant_of.intros)

lemma get_descendants_sound: "d \<in> set (get_descendants c) \<Longrightarrow> descendant_of c d"
proof (induction c arbitrary: d)
  case (Category pk cs)
  then obtain ch where ch: "ch \<in> set cs" "d = ch \<or> d \<in> set (get_descendants ch)"
    by auto
  show ?case
  proof (cases "d = ch")
    case True
    with ch show ?thesis by (simp add: descendant_of.child)
  next
    case False
    with ch Category.IH have "descendant_of ch d" by blast
    with ch show ?thesis by (auto intro: descendant_of_step)
  qed
qed

lemma get_descendants_trans:
  "d \<in> set (get_descendants c) \<Longrightarrow> e \<in> set (get_descendants d)
     \<Longrightarrow> e \<in> set (get_descendants c)"
proof (induction c)
  case (Category pk cs)
  then show ?case by fastforce
qed

lemma get_descendants_complete: "descendant_of c d \<Longrightarrow> d \<in> set (get_descendants c)"
proof (induction rule: descendant_of.induct)
  case (child d c)
  then show ?case by (rule children_are_descendants)
next
  case (below c d e)
  from below.hyps(2) have "e \<in> set (get_descendants d)"
    by (rule children_are_descendants)
  with below.IH show ?case by (rule get_descendants_trans)
qed

text \<open>The traversal lists exactly the categories below the given one.\<close>

lemma set_get_descendants: "set (get_descendants c) = {d. descendant_of c d}"
  using get_descendants_sound get_descendants_complete by blast

section \<open>Properties of collect\_categories\_tree\_products\<close>

text \<open>
  C3. Run on any database, the queryset that \<open>collect_categories_tree_products\<close>
  returns selects a product exactly when the product is in the category itself or in a
  category at some level below it; so its rows are the union of the category's own
  products and the products of each descendant.
\<close>

theorem collect_categories_tree_products_subtree:
  "((p \<in> set (fetch_products db (collect_categories_tree_products category))) =
      (p \<in> set (product_table db) \<and>
        (category_id p = Some (cat_id category) \<or>
         (\<exists>d. descendant_of category d \<and> category_id p = Some (cat_id d)))))
   \<and> set (fetch_products db (collect_categories_tree_products category)) =
       set (fetch_products db (CategoryProducts (cat_id category))) \<union>
       (\<Union>d\<in>{d. descendant_of category d}.
           set (fetch_products db (CategoryProducts (cat_id d))))"
  by (auto simp: fetch_products_def selects_collect set_get_descendants)

theorem collect_categories_tree_products_subtree_witness:
  "\<lparr>prod_id = 11, category_id = Some 3\<rparr>
     \<in> set (fetch_products example_database (collect_categories_tree_products example_tree))"
proof -
  have "Category 3 [] \<in> set (get_descendants example_tree)"
    by (simp add: example_tree_def)
  then have "descendant_of example_tree (Category 3 [])"
    by (rule get_descendants_sound)
  then have below: "\<exists>d. descendant_of example_tree d \<and>
      category_id \<lparr>prod_id = 11, category_id = Some 3\<rparr> = Some (cat_id d)"
    by (intro exI [of _ "Category 3 []"]) simp
  have row: "\<lparr>prod_id = 11, category_id = Some 3\<rparr> \<in> set (product_table example_database)"
    by (simp add: example_database_def)
  have iff: "(\<lparr>prod_id = 11, category_id = Some 3\<rparr>
        \<in> set (fetch_products example_database (collect_categories_tree_products example_tree))) =
      (\<lparr>prod_id = 11, category_id = Some 3\<rparr> \<in> set (product_table example_database) \<and>
        (category_id \<lparr>prod_id = 11, category_id = Some 3\<rparr> = Some (cat_id example_tree) \<or>
         (\<exists>d. descendant_of example_tree d \<and>
            category_id \<lparr>prod_id = 11, category_id = Some 3\<rparr> = Some (cat_id d))))"
    using collect_categories_tree_products_subtree
            [of "\<lparr>prod_id = 11, category_id = Some 3\<rparr>" example_database example_tree]
    by (rule conjunct1)
  show ?thesis
    by (rule iffD2 [OF iff]) (intro conjI disjI2 row below)
qed

section \<open>Properties of get\_products\_ids\_without\_variants\<close>

lemma ids_without_variants_iff:
  "(i \<in> set (get_products_ids_without_variants db products_list)) =
     (\<exists>r\<in>set (product_table db). prod_id r = i \<and> i \<in> prod_id ` set products_list \<and>
        variants_of db i = [])"
  by (auto simp: get_products_ids_without_variants_def)

text \<open>
  C4, as the code has it. The ids come from the product table: an id is returned exactly
  when it is the id of a product of the input list, a row of the product table has that
  id, and no variant points to it.
\<close>

theorem ids_without_variants_stored:
  "(i \<in> set (get_products_ids_without_variants db products_list)) =
     (\<exists>p\<in>set products_list. prod_id p = i \<and> i \<in> prod_id ` set (product_table db) \<and>
        variants_of db (prod_id p) = [])"
proof
  assume "i \<in> set (get_products_ids_without_variants db products_list)"
  then obtain r where r: "r \<in> set (product_table db)" "prod_id r = i"
      "i \<in> prod_id ` set products_list" "variants_of db i = []"
    unfolding ids_without_variants_iff by blast
  from r(3) obtain p where "p \<in> set products_list" "prod_id p = i" by auto
  with r show "\<exists>p\<in>set products_list. prod_id p = i \<and> i \<in> prod_id ` set (product_table db) \<and>
      variants_of db (prod_id p) = []"
    by (intro bexI [of _ p]) auto
next
  assume "\<exists>p\<in>set products_list. prod_id p = i \<and> i \<in> prod_id ` set (product_table db) \<and>
      variants_of db (prod_id p) = []"
  then obtain p where p: "p \<in> set products_list" "prod_id p = i"
      "i \<in> prod_id ` set (product_table db)" "variants_of db i = []"
    by auto
  from p(3) obtain r where "r \<in> set (product_table db)" "prod_id r = i" by auto
  with p show "i \<in> set (get_products_ids_without_variants db products_list)"
    unfolding ids_without_variants_iff by (intro bexI [of _ r]) auto
qed

theorem ids_without_variants_stored_witness:
  "11 \<in> set (get_products_ids_without_variants example_database
             [\<lparr>prod_id = 10, category_id = Some 1\<rparr>, \<lparr>prod_id = 11, category_id = Some 3\<rparr>])"
  using ids_without_variants_stored
          [of 11 example_database
              "[\<lparr>prod_id = 10, category_id = Some 1\<rparr>, \<lparr>prod_id = 11, category_id = Some 3\<rparr>]"]
  by (simp add: example_database_def variants_of_def)

text \<open>
  C4 as the claim words it fails for a product of the input list that has no row in the
  product table: product \<open>99\<close> has no variant, and its id is not returned.
\<close>

theorem ids_without_variants_unstored_counterexample:
  "\<not> ((99 \<in> set (get_products_ids_without_variants example_database
                 [\<lparr>prod_id = 99, category_id = None\<rparr>]))
       = (prod_id \<lparr>prod_id = 99, category_id = None\<rparr> = 99
          \<and> variants_of example_database (prod_id \<lparr>prod_id = 99, category_id = None\<rparr>) = []))"
  by (simp add: example_database_def variants_of_def get_products_ids_without_variants_def)

section \<open>Properties of delete\_categories\<close>

subsection \<open>The steps of the body\<close>

lemma selects_products_loop:
  "selects (products_loop q cs) p =
     (selects q p \<or> (\<exists>c\<in>set cs. selects (collect_categories_tree_products c) p))"
  by (induction cs arbitrary: q) (auto simp: selects_qs_or)

lemma category_deleted_loop_map:
  "category_deleted_loop manager webhooks cs =
     map (\<lambda>c. CallEvent (CategoryDeleted manager c webhooks)) cs"
  by (induction cs) simp_all

lemma product_updated_loop_map:
  "product_updated_loop manager webhooks ps =
     map (\<lambda>p. CallEvent (ProductUpdated manager p webhooks)) ps"
  by (induction ps) simp_all

lemma update_listings_tables [simp]:
  "category_table (update_listings db lq) = category_table db"
  "product_table (update_listings db lq) = product_table db"
  "variant_table (update_listings db lq) = variant_table db"
  by (simp_all add: update_listings_def)

lemma fetch_products_update_listings [simp]:
  "fetch_products (update_listings db lq) qs = fetch_products db qs"
  by (simp add: fetch_products_def)

lemma fetch_categories_update_listings [simp]:
  "fetch_categories (update_listings db lq) cq = fetch_categories db cq"
  by (cases cq) simp

lemma deleted_pks_update_listings [simp]:
  "deleted_pks (update_listings db lq) cq = deleted_pks db cq"
  by (simp add: deleted_pks_def)

lemma delete_category_rows_listings [simp]:
  "listing_table (delete_category_rows db cq) = listing_table db"
  by (cases cq) simp

lemma cat_id_prune [simp]: "cat_id (prune ids c) = cat_id c"
  by (cases c) simp

lemma get_descendants_prune:
  "c \<in> set (get_descendants (prune ids t)) \<Longrightarrow> cat_id c \<notin> set ids"
proof (induction t arbitrary: c)
  case (Category pk cs)
  from Category.prems obtain ch where ch: "ch \<in> set cs" "cat_id ch \<notin> set ids"
      "c = prune ids ch \<or> c \<in> set (get_descendants (prune ids ch))"
    by auto
  show ?case
  proof (cases "c = prune ids ch")
    case True
    with ch show ?thesis by simp
  next
    case False
    with ch Category.IH show ?thesis by blast
  qed
qed

lemma all_categories_prune_roots:
  "c \<in> set (all_categories (prune_roots ids roots)) \<Longrightarrow> cat_id c \<notin> set ids"
  by (auto simp: all_categories_def prune_roots_def dest: get_descendants_prune)

lemma delete_category_rows_categories:
  "c \<in> set (all_categories (category_table (delete_category_rows db (CategoriesWithPk ids))))
     \<Longrightarrow> cat_id c \<notin> set ids"
  by (simp add: all_categories_prune_roots)


lemma delete_categories_body_no_failure:
  assumes "fst (delete_categories_body fails gw ids manager db) = Inr v"
  shows "\<not> fails SelectCategories" "\<not> fails UpdateListingRows" "\<not> fails SelectProducts"
    "\<not> fails DeleteCategoryRows" "\<not> fails SelectChannelIds"
  using assms unfolding delete_categories_body_def Let_def
  by (simp_all split: if_splits)

lemma delete_categories_body_run:
  assumes "\<not> fails SelectCategories" "\<not> fails UpdateListingRows" "\<not> fails SelectProducts"
    "\<not> fails DeleteCategoryRows" "\<not> fails SelectChannelIds"
    and cq: "cq = CategoriesWithPk ids"
    and qs: "qs = products_loop EmptyQuerySet (fetch_categories db cq)"
    and db2: "db2 = delete_category_rows (update_listings db (ListingsOfProducts qs)) cq"
  shows "delete_categories_body fails gw ids manager db =
     (Inr (), db2,
      UpdateListings (map listing_id (fetch_listings db (ListingsOfProducts qs)))
      # DeleteCategories (deleted_pks db cq)
      # (category_deleted_loop manager (gw CATEGORY_DELETED) (fetch_categories db cq)
         @ product_updated_loop manager (gw PRODUCT_UPDATED) (fetch_products db qs)
         @ [CallEvent (PromotionRulesDirty
              (set (values_list_channel_id db2 (ListingsOfProducts qs))))]))"
  unfolding delete_categories_body_def Let_def cq qs db2
  by (simp add: assms(1-5) del: fetch_categories.simps delete_category_rows.simps)

lemma delete_categories_body_Inr:
  assumes run: "delete_categories_body fails gw ids manager db = (Inr v, db', effects)"
    and cq: "cq = CategoriesWithPk ids"
    and qs: "qs = products_loop EmptyQuerySet (fetch_categories db cq)"
  shows "db' = delete_category_rows (update_listings db (ListingsOfProducts qs)) cq"
    and "effects =
      UpdateListings (map listing_id (fetch_listings db (ListingsOfProducts qs)))
      # DeleteCategories (deleted_pks db cq)
      # (category_deleted_loop manager (gw CATEGORY_DELETED) (fetch_categories db cq)
         @ product_updated_loop manager (gw PRODUCT_UPDATED) (fetch_products db qs)
         @ [CallEvent (PromotionRulesDirty
              (set (values_list_channel_id db' (ListingsOfProducts qs))))])"
proof -
  from run have "fst (delete_categories_body fails gw ids manager db) = Inr v" by simp
  note nf = delete_categories_body_no_failure [OF this]
  note full = delete_categories_body_run [OF nf cq qs refl, of gw manager]
  from run full
  show "db' = delete_category_rows (update_listings db (ListingsOfProducts qs)) cq"
    by simp
  with run full
  show "effects =
      UpdateListings (map listing_id (fetch_listings db (ListingsOfProducts qs)))
      # DeleteCategories (deleted_pks db cq)
      # (category_deleted_loop manager (gw CATEGORY_DELETED) (fetch_categories db cq)
         @ product_updated_loop manager (gw PRODUCT_UPDATED) (fetch_products db qs)
         @ [CallEvent (PromotionRulesDirty
              (set (values_list_channel_id db' (ListingsOfProducts qs))))])"
    by simp
qed

lemma delete_categories_Inr:
  "delete_categories fails gw ids manager db = (Inr v, db', effects)
     \<Longrightarrow> delete_categories_body fails gw ids manager db = (Inr v, db', effects)"
  unfolding delete_categories_def traced_atomic_transaction_def
  by (simp split: prod.splits sum.splits)

lemma delete_categories_effects:
  "snd (snd (delete_categories fails gw ids manager db)) =
     snd (snd (delete_categories_body fails gw ids manager db))"
  unfolding delete_categories_def traced_atomic_transaction_def
  by (simp split: prod.splits sum.splits)

text \<open>
  Where the body stops, and what it has done to the database by then: nothing, or the
  update of the listings, or that update and then the delete of the categories.
\<close>

lemma delete_categories_body_stages:
  fixes fails gw ids manager db
  defines "qs \<equiv> products_loop EmptyQuerySet (fetch_categories db (CategoriesWithPk ids))"
  defines "run \<equiv> delete_categories_body fails gw ids manager db"
  shows "(snd (snd run) = [] \<and> fst (snd run) = db)
    \<or> (snd (snd run) =
          [UpdateListings (map listing_id (fetch_listings db (ListingsOfProducts qs)))]
        \<and> fst (snd run) = update_listings db (ListingsOfProducts qs))
    \<or> ((\<exists>events. snd (snd run) =
            UpdateListings (map listing_id (fetch_listings db (ListingsOfProducts qs)))
            # DeleteCategories (deleted_pks db (CategoriesWithPk ids))
            # map CallEvent events)
        \<and> fst (snd run) =
            delete_category_rows (update_listings db (ListingsOfProducts qs))
              (CategoriesWithPk ids))"
proof -
  let ?cs = "fetch_categories db (CategoriesWithPk ids)"
  let ?ps = "fetch_products db qs"
  let ?db2 = "delete_category_rows (update_listings db (ListingsOfProducts qs))
                (CategoriesWithPk ids)"
  let ?ev = "map (\<lambda>c. CategoryDeleted manager c (gw CATEGORY_DELETED)) ?cs
              @ map (\<lambda>p. ProductUpdated manager p (gw PRODUCT_UPDATED)) ?ps"
  let ?dirty = "PromotionRulesDirty (set (values_list_channel_id ?db2 (ListingsOfProducts qs)))"
  let ?U = "UpdateListings (map listing_id (fetch_listings db (ListingsOfProducts qs)))"
  let ?D = "DeleteCategories (deleted_pks db (CategoriesWithPk ids))"
  show ?thesis
  proof (cases "fails SelectChannelIds")
    case True
    have "(snd (snd run) = [] \<and> fst (snd run) = db)
        \<or> (snd (snd run) = [?U] \<and> fst (snd run) = update_listings db (ListingsOfProducts qs))
        \<or> (snd (snd run) = ?U # ?D # map CallEvent ?ev \<and> fst (snd run) = ?db2)"
      unfolding run_def qs_def delete_categories_body_def Let_def
      by (simp add: True category_deleted_loop_map product_updated_loop_map
            del: fetch_categories.simps delete_category_rows.simps)
    then show ?thesis by blast
  next
    case False
    have "(snd (snd run) = [] \<and> fst (snd run) = db)
        \<or> (snd (snd run) = [?U] \<and> fst (snd run) = update_listings db (ListingsOfProducts qs))
        \<or> (snd (snd run) = ?U # ?D # map CallEvent (?ev @ [?dirty]) \<and> fst (snd run) = ?db2)"
      unfolding run_def qs_def delete_categories_body_def Let_def
      by (simp add: False category_deleted_loop_map product_updated_loop_map
            del: fetch_categories.simps delete_category_rows.simps)
    then show ?thesis by blast
  qed
qed

subsection \<open>The example run\<close>

lemma example_run:
  "delete_categories (\<lambda>s. False) (\<lambda>t. ()) [1] () example_database =
     (Inr (), example_after,
      [UpdateListings [100, 101], DeleteCategories [1, 2, 3],
       CallEvent (CategoryDeleted () example_tree ()),
       CallEvent (ProductUpdated () \<lparr>prod_id = 10, category_id = Some 1\<rparr> ()),
       CallEvent (ProductUpdated () \<lparr>prod_id = 11, category_id = Some 3\<rparr> ()),
       CallEvent (PromotionRulesDirty {})])"
  by code_simp

lemma example_failed_run:
  "delete_categories (\<lambda>s. s = DeleteCategoryRows) (\<lambda>t. ()) [1] () example_database =
     (Inl DatabaseError, example_database, [UpdateListings [100, 101]])"
  by code_simp

lemma example_channels:
  "set (values_list_channel_id example_database
          (ListingsOfProducts (collect_categories_tree_products example_tree))) = {1, 2}"
  by code_simp

text \<open>
  The two writes do not commute: deleting first leaves no product in the listing query,
  and the update that follows unpublishes nothing.
\<close>

lemma example_order_matters:
  "update_listings
     (delete_category_rows example_database (CategoriesWithPk [1]))
     (ListingsOfProducts
        (products_loop EmptyQuerySet
           (fetch_categories example_database (CategoriesWithPk [1]))))
   \<noteq> delete_category_rows
       (update_listings example_database
          (ListingsOfProducts
             (products_loop EmptyQuerySet
                (fetch_categories example_database (CategoriesWithPk [1])))))
       (CategoriesWithPk [1])"
  by code_simp

lemma example_body_failed:
  "fst (snd (delete_categories_body (\<lambda>s. s = DeleteCategoryRows) (\<lambda>t. ()) [1] ()
      example_database)) \<noteq> example_database"
  by code_simp

subsection \<open>The order of the side effects\<close>

text \<open>
  C2. The side effects of a call come in one order, in the record of the effects and in
  the database alike. Where the body stops it has done nothing and the database is
  untouched; or it has updated the listings of the collected products and the database
  is the updated one; or it has updated the listings, then deleted the categories, then
  emitted events only, and the database is the one the delete leaves when run on the
  updated database. A call that returns has done all of it and keeps that database: the
  update, then the delete, then one \<open>category_deleted\<close> event per fetched category, then
  one \<open>product_updated\<close> event per collected product, then the promotion-rules-dirty
  event.
\<close>

theorem delete_categories_order:
  assumes "delete_categories fails gw ids manager db = (result, db', effects)"
  shows "let cq = CategoriesWithPk ids;
             qs = products_loop EmptyQuerySet (fetch_categories db cq);
             lq = ListingsOfProducts qs;
             update = UpdateListings (map listing_id (fetch_listings db lq));
             delete = DeleteCategories (deleted_pks db cq);
             inside = fst (snd (delete_categories_body fails gw ids manager db))
         in ((effects = [] \<and> inside = db)
             \<or> (effects = [update] \<and> inside = update_listings db lq)
             \<or> ((\<exists>events. effects = update # delete # map CallEvent events)
                 \<and> inside = delete_category_rows (update_listings db lq) cq))
          \<and> (result = Inr () \<longrightarrow>
                db' = delete_category_rows (update_listings db lq) cq
              \<and> (\<exists>categories products channel_ids.
                    mset categories = mset (fetch_categories db cq)
                  \<and> mset products = mset (fetch_products db qs)
                  \<and> effects =
                      update # delete
                      # (category_deleted_loop manager (gw CATEGORY_DELETED) categories
                         @ product_updated_loop manager (gw PRODUCT_UPDATED) products
                         @ [CallEvent (PromotionRulesDirty channel_ids)])))"
proof -
  let ?cq = "CategoriesWithPk ids"
  let ?qs = "products_loop EmptyQuerySet (fetch_categories db ?cq)"
  let ?lq = "ListingsOfProducts ?qs"
  from assms have eff: "effects = snd (snd (delete_categories_body fails gw ids manager db))"
    using delete_categories_effects [of fails gw ids manager db] by simp
  have stages: "(effects = []
        \<and> fst (snd (delete_categories_body fails gw ids manager db)) = db)
    \<or> (effects = [UpdateListings (map listing_id (fetch_listings db ?lq))]
        \<and> fst (snd (delete_categories_body fails gw ids manager db)) = update_listings db ?lq)
    \<or> ((\<exists>events. effects =
            UpdateListings (map listing_id (fetch_listings db ?lq))
            # DeleteCategories (deleted_pks db ?cq) # map CallEvent events)
        \<and> fst (snd (delete_categories_body fails gw ids manager db)) =
            delete_category_rows (update_listings db ?lq) ?cq)"
    unfolding eff by (rule delete_categories_body_stages)
  have returned: "db' = delete_category_rows (update_listings db ?lq) ?cq
      \<and> (\<exists>categories products channel_ids.
            mset categories = mset (fetch_categories db ?cq)
          \<and> mset products = mset (fetch_products db ?qs)
          \<and> effects =
              UpdateListings (map listing_id (fetch_listings db ?lq))
              # DeleteCategories (deleted_pks db ?cq)
              # (category_deleted_loop manager (gw CATEGORY_DELETED) categories
                 @ product_updated_loop manager (gw PRODUCT_UPDATED) products
                 @ [CallEvent (PromotionRulesDirty channel_ids)]))"
    if "result = Inr ()"
  proof -
    from assms that
    have run: "delete_categories_body fails gw ids manager db = (Inr (), db', effects)"
      by (simp add: delete_categories_Inr)
    note r = delete_categories_body_Inr [OF run refl refl]
    from r(2) have "\<exists>categories products channel_ids.
            mset categories = mset (fetch_categories db ?cq)
          \<and> mset products = mset (fetch_products db ?qs)
          \<and> effects =
              UpdateListings (map listing_id (fetch_listings db ?lq))
              # DeleteCategories (deleted_pks db ?cq)
              # (category_deleted_loop manager (gw CATEGORY_DELETED) categories
                 @ product_updated_loop manager (gw PRODUCT_UPDATED) products
                 @ [CallEvent (PromotionRulesDirty channel_ids)])"
      by (intro exI [of _ "fetch_categories db ?cq"] exI [of _ "fetch_products db ?qs"]
            exI [of _ "set (values_list_channel_id db' ?lq)"] conjI refl)
    with r(1) show ?thesis by (rule conjI)
  qed
  from stages returned show ?thesis
    unfolding Let_def by blast
qed

theorem delete_categories_order_witness:
  "(\<exists>events.
      snd (snd (delete_categories (\<lambda>s. False) (\<lambda>t. ()) [1] () example_database))
      = UpdateListings [100, 101] # DeleteCategories [1, 2, 3] # map CallEvent events)
   \<and> fst (snd (delete_categories (\<lambda>s. False) (\<lambda>t. ()) [1] () example_database))
     = delete_category_rows
         (update_listings example_database
            (ListingsOfProducts
               (products_loop EmptyQuerySet
                  (fetch_categories example_database (CategoriesWithPk [1])))))
         (CategoriesWithPk [1])
   \<and> fst (snd (delete_categories (\<lambda>s. False) (\<lambda>t. ()) [1] () example_database))
     \<noteq> update_listings
         (delete_category_rows example_database (CategoriesWithPk [1]))
         (ListingsOfProducts
            (products_loop EmptyQuerySet
               (fetch_categories example_database (CategoriesWithPk [1]))))"
proof -
  note order = delete_categories_order [OF example_run, unfolded Let_def]
  from order have db: "example_after
     = delete_category_rows
         (update_listings example_database
            (ListingsOfProducts
               (products_loop EmptyQuerySet
                  (fetch_categories example_database (CategoriesWithPk [1])))))
         (CategoriesWithPk [1])"
    by blast
  have "\<exists>events. [UpdateListings [100, 101], DeleteCategories [1, 2, 3],
       CallEvent (CategoryDeleted () example_tree ()),
       CallEvent (ProductUpdated () \<lparr>prod_id = 10, category_id = Some 1\<rparr> ()),
       CallEvent (ProductUpdated () \<lparr>prod_id = 11, category_id = Some 3\<rparr> ()),
       CallEvent (PromotionRulesDirty {})]
     = UpdateListings [100, 101] # DeleteCategories [1, 2, 3]
       # map CallEvent (events :: (unit, unit) event list)"
    by (intro exI [of _ "[CategoryDeleted () example_tree (),
          ProductUpdated () \<lparr>prod_id = 10, category_id = Some 1\<rparr> (),
          ProductUpdated () \<lparr>prod_id = 11, category_id = Some 3\<rparr> (),
          PromotionRulesDirty {}]"]) simp
  with db example_order_matters show ?thesis
    by (simp add: example_run)
qed

subsection \<open>The database after the call\<close>

text \<open>
  C5. After a call that returns, every listing whose product was in one of the given
  categories, or in a category below one of them, is unpublished with no publication
  date, and no category row has one of the given primary keys.
\<close>

theorem delete_categories_postcondition:
  assumes "delete_categories fails gw ids manager db = (Inr (), db', effects)"
  shows "(\<forall>l\<in>set (listing_table db'). \<forall>p\<in>set (product_table db).
            \<forall>c\<in>set (fetch_categories db (CategoriesWithPk ids)).
              product_id l = prod_id p \<and>
              (category_id p = Some (cat_id c) \<or>
               (\<exists>d. descendant_of c d \<and> category_id p = Some (cat_id d)))
              \<longrightarrow> \<not> is_published l \<and> published_at l = None)
       \<and> (\<forall>c\<in>set (all_categories (category_table db')). cat_id c \<notin> set ids)"
proof -
  let ?cq = "CategoriesWithPk ids"
  let ?qs = "products_loop EmptyQuerySet (fetch_categories db ?cq)"
  from assms have run: "delete_categories_body fails gw ids manager db = (Inr (), db', effects)"
    by (rule delete_categories_Inr)
  have db': "db' = delete_category_rows (update_listings db (ListingsOfProducts ?qs)) ?cq"
    by (rule delete_categories_body_Inr(1) [OF run refl refl])
  have rows: "\<forall>c\<in>set (all_categories (category_table db')). cat_id c \<notin> set ids"
    unfolding db' using delete_category_rows_categories by blast
  have listings: "\<not> is_published l \<and> published_at l = None"
    if l: "l \<in> set (listing_table db')" and p: "p \<in> set (product_table db)"
      and c: "c \<in> set (fetch_categories db ?cq)" and lp: "product_id l = prod_id p"
      and cat: "category_id p = Some (cat_id c) \<or>
               (\<exists>d. descendant_of c d \<and> category_id p = Some (cat_id d))"
    for l p c
  proof -
    from cat have "selects (collect_categories_tree_products c) p"
      by (simp add: selects_collect set_get_descendants)
    with c have "selects ?qs p" unfolding selects_products_loop by blast
    with p have "p \<in> set (fetch_products db ?qs)" by (simp add: fetch_products_def)
    then have inq: "prod_id p \<in> set (map prod_id (fetch_products db ?qs))" by simp
    from l obtain l0 where l0: "l0 \<in> set (listing_table db)"
        and eq: "l = (if in_listing_queryset db (ListingsOfProducts ?qs) l0
                     then l0\<lparr>is_published := False, published_at := None\<rparr> else l0)"
      unfolding db' by (auto simp: update_listings_def simp del: fetch_categories.simps)
    have "product_id l = product_id l0" unfolding eq by simp
    with lp inq have "in_listing_queryset db (ListingsOfProducts ?qs) l0" by simp
    with eq show ?thesis by simp
  qed
  from rows listings show ?thesis by blast
qed

theorem delete_categories_postcondition_witness:
  "fst (delete_categories (\<lambda>s. False) (\<lambda>t. ()) [1] () example_database) = Inr ()
   \<and> \<not> is_published
         (listing_table
            (fst (snd (delete_categories (\<lambda>s. False) (\<lambda>t. ()) [1] () example_database))) ! 1)
   \<and> published_at
         (listing_table
            (fst (snd (delete_categories (\<lambda>s. False) (\<lambda>t. ()) [1] () example_database))) ! 1)
       = None
   \<and> 1 \<notin> cat_id ` set (all_categories (category_table
         (fst (snd (delete_categories (\<lambda>s. False) (\<lambda>t. ()) [1] () example_database)))))"
proof -
  note post = delete_categories_postcondition [OF example_run]
  have l: "listing_table example_after ! 1 \<in> set (listing_table example_after)"
    by (simp add: example_after_def)
  have p: "\<lparr>prod_id = 11, category_id = Some 3\<rparr> \<in> set (product_table example_database)"
    by (simp add: example_database_def)
  have c: "example_tree \<in> set (fetch_categories example_database (CategoriesWithPk [1]))"
    by code_simp
  have "Category 3 [] \<in> set (get_descendants example_tree)"
    by (simp add: example_tree_def)
  then have d: "descendant_of example_tree (Category 3 [])"
    by (rule get_descendants_sound)
  have lp: "product_id (listing_table example_after ! 1)
      = prod_id \<lparr>prod_id = 11, category_id = Some 3\<rparr>"
    by (simp add: example_after_def)
  have cat: "category_id \<lparr>prod_id = 11, category_id = Some 3\<rparr> = Some (cat_id example_tree) \<or>
      (\<exists>d. descendant_of example_tree d \<and>
         category_id \<lparr>prod_id = 11, category_id = Some 3\<rparr> = Some (cat_id d))"
    using d by (intro disjI2 exI [of _ "Category 3 []"]) simp
  from post l p c lp cat
  have unpublished: "\<not> is_published (listing_table example_after ! 1)
      \<and> published_at (listing_table example_after ! 1) = None"
    by blast
  from post have "\<forall>c\<in>set (all_categories (category_table example_after)). cat_id c \<notin> set [1]"
    by (rule conjunct2)
  then have gone: "1 \<notin> cat_id ` set (all_categories (category_table example_after))"
    by auto
  from unpublished gone show ?thesis
    by (simp add: example_run)
qed

subsection \<open>The promotion-rules-dirty event\<close>

text \<open>
  The channel ids for the last event are read through \<open>product_channel_listing\<close>
  after the categories are deleted. That query selects listings by the products of the
  deleted categories, and after the delete no product is in a deleted category: the
  query finds nothing, and the event carries the empty set on every call that returns.
\<close>

lemma selects_deleted_pks:
  "selects (products_loop EmptyQuerySet (fetch_categories db cq)) p =
     (\<exists>k\<in>set (deleted_pks db cq). category_id p = Some k)"
  by (auto simp: selects_products_loop selects_collect deleted_pks_def)

text \<open>
  This does not rest on how the delete treats the products: in any later database where
  no product row refers to a deleted category (the reference set to null, or the product
  deleted with its category), the query has no rows.
\<close>

lemma channel_ids_without_references:
  assumes "\<forall>p\<in>set (product_table later). \<forall>k\<in>set (deleted_pks db cq). category_id p \<noteq> Some k"
  shows "values_list_channel_id later
           (ListingsOfProducts (products_loop EmptyQuerySet (fetch_categories db cq))) = []"
proof -
  have "fetch_products later (products_loop EmptyQuerySet (fetch_categories db cq)) = []"
    unfolding fetch_products_def filter_empty_conv selects_deleted_pks
    using assms by blast
  then show ?thesis
    by (simp add: values_list_channel_id_def fetch_listings_def)
qed

lemma set_null_not_selected:
  "category_id (set_null pks p) = Some k \<Longrightarrow> k \<notin> set pks"
  by (auto simp: set_null_def split: option.splits if_splits)

lemma fetch_products_after_delete:
  "fetch_products (delete_category_rows db cq)
     (products_loop EmptyQuerySet (fetch_categories db cq)) = []"
proof -
  obtain ids where cq: "cq = CategoriesWithPk ids" by (cases cq)
  have "\<not> selects (products_loop EmptyQuerySet (fetch_categories db cq))
            (set_null (deleted_pks db cq) p)" for p
    unfolding selects_deleted_pks using set_null_not_selected by blast
  then show ?thesis
    unfolding fetch_products_def cq
    by (simp add: filter_empty_conv del: fetch_categories.simps)
qed

lemma channel_ids_after_delete:
  "values_list_channel_id
     (delete_category_rows (update_listings db lq) cq)
     (ListingsOfProducts (products_loop EmptyQuerySet (fetch_categories db cq))) = []"
proof -
  have "fetch_products (delete_category_rows (update_listings db lq) cq)
     (products_loop EmptyQuerySet (fetch_categories (update_listings db lq) cq)) = []"
    by (rule fetch_products_after_delete)
  then show ?thesis
    by (simp add: values_list_channel_id_def fetch_listings_def)
qed

lemma promotion_rules_dirty_is_empty:
  assumes "delete_categories fails gw ids manager db = (Inr v, db', effects)"
  shows "last effects = CallEvent (PromotionRulesDirty {})"
proof -
  from assms have run: "delete_categories_body fails gw ids manager db = (Inr v, db', effects)"
    by (rule delete_categories_Inr)
  note r = delete_categories_body_Inr [OF run refl refl]
  show ?thesis
    by (subst r(2)) (simp add: r(1) channel_ids_after_delete del: fetch_categories.simps delete_category_rows.simps)
qed

text \<open>
  C6. On the example, deleting category \<open>1\<close> emits one \<open>category_deleted\<close> event for
  the category and one \<open>product_updated\<close> event for each of the two collected products,
  but the promotion-rules-dirty event carries the empty set, while the listings the call
  unpublished are in channels \<open>1\<close> and \<open>2\<close>.
\<close>

theorem delete_categories_dirty_channels_example:
  "snd (snd (delete_categories (\<lambda>s. False) (\<lambda>t. ()) [1] () example_database)) =
      [UpdateListings [100, 101], DeleteCategories [1, 2, 3],
       CallEvent (CategoryDeleted () example_tree ()),
       CallEvent (ProductUpdated () \<lparr>prod_id = 10, category_id = Some 1\<rparr> ()),
       CallEvent (ProductUpdated () \<lparr>prod_id = 11, category_id = Some 3\<rparr> ()),
       CallEvent (PromotionRulesDirty {})]
   \<and> set (values_list_channel_id example_database
          (ListingsOfProducts (collect_categories_tree_products example_tree))) = {1, 2}"
  using example_run example_channels by simp

subsection \<open>The transaction\<close>

text \<open>
  C7. When a call raises, the database is the one the call started from: no change of
  the listings or of the categories stays.
\<close>

theorem delete_categories_atomic:
  "delete_categories fails gw ids manager db = (Inl e, db', effects) \<Longrightarrow> db' = db"
  unfolding delete_categories_def traced_atomic_transaction_def
  by (simp split: prod.splits sum.splits)

theorem delete_categories_atomic_witness:
  "fst (delete_categories (\<lambda>s. s = DeleteCategoryRows) (\<lambda>t. ()) [1] () example_database)
     = Inl DatabaseError
   \<and> fst (snd (delete_categories (\<lambda>s. s = DeleteCategoryRows) (\<lambda>t. ()) [1] ()
        example_database)) = example_database
   \<and> fst (snd (delete_categories_body (\<lambda>s. s = DeleteCategoryRows) (\<lambda>t. ()) [1] ()
        example_database)) \<noteq> example_database"
proof -
  obtain db' effects where run:
    "delete_categories (\<lambda>s. s = DeleteCategoryRows) (\<lambda>t. ()) [1] () example_database
       = (Inl DatabaseError, db', effects)"
    using example_failed_run by blast
  then have "db' = example_database"
    by (rule delete_categories_atomic)
  with run show ?thesis
    by (simp add: example_body_failed)
qed

section \<open>Termination\<close>

text \<open>
  For a recursive function \<open>f\<close>, the predicate \<open>f_dom x\<close> says that the recursion started
  at \<open>x\<close> is well-founded: the loop started there comes to an end. Each loop of the
  module ends on every list, and the tree traversal on every category.
\<close>

lemma revenue_loop_total:
  "revenue_loop_dom (add, ge, start_date, orders_dict, revenue, order_lines)"
proof (induction order_lines arbitrary: revenue)
  case Nil
  show ?case by (rule accpI) (erule revenue_loop_rel.cases, simp_all)
next
  case (Cons l ls)
  show ?case by (rule accpI) (erule revenue_loop_rel.cases, auto intro: Cons)
qed

lemma collect_loop_total: "collect_loop_dom (products, descendants)"
proof (induction descendants arbitrary: products)
  case Nil
  show ?case by (rule accpI) (erule collect_loop_rel.cases, simp_all)
next
  case (Cons d ds)
  show ?case by (rule accpI) (erule collect_loop_rel.cases, auto intro: Cons)
qed

lemma products_loop_total: "products_loop_dom (products, categories)"
proof (induction categories arbitrary: products)
  case Nil
  show ?case by (rule accpI) (erule products_loop_rel.cases, simp_all)
next
  case (Cons d ds)
  show ?case by (rule accpI) (erule products_loop_rel.cases, auto intro: Cons)
qed

lemma category_deleted_loop_total: "category_deleted_loop_dom (manager, webhooks, categories)"
proof (induction categories)
  case Nil
  show ?case by (rule accpI) (erule category_deleted_loop_rel.cases, simp_all)
next
  case (Cons d ds)
  show ?case by (rule accpI) (erule category_deleted_loop_rel.cases, auto intro: Cons)
qed

lemma product_updated_loop_total: "product_updated_loop_dom (manager, webhooks, products)"
proof (induction products)
  case Nil
  show ?case by (rule accpI) (erule product_updated_loop_rel.cases, simp_all)
next
  case (Cons d ds)
  show ?case by (rule accpI) (erule product_updated_loop_rel.cases, auto intro: Cons)
qed

lemma get_descendants_total: "get_descendants_dom category"
proof (induction category)
  case (Category pk cs)
  show ?case by (rule accpI) (erule get_descendants_rel.cases, auto intro: Category)
qed

subsection \<open>One pass over the input\<close>

text \<open>
  How often each loop runs its body, read off the function itself. With an addition
  that counts (\<open>revenue + 1\<close> for any price) the revenue loop returns the number of
  lines it added: one addition for each selected line, so one pass over the lines.
\<close>

lemma foldl_count: "foldl (\<lambda>n p. Suc n) k xs = k + length xs"
  by (induction xs arbitrary: k) simp_all

lemma revenue_loop_counts:
  assumes "\<forall>l\<in>set ls. order_id l \<in> dom od"
  shows "revenue_loop (\<lambda>n p. Inr (Suc n)) (\<lambda>c s. Inr (ge c s)) sd od k ls =
     Inr (k + length (filter (\<lambda>l. ge (created_at (the (od (order_id l)))) sd) ls))"
  using revenue_loop_present [OF assms, of "\<lambda>n p. Suc n" ge sd k]
  by (simp add: foldl_count)

text \<open>The tree traversal lists fewer categories than the tree has nodes and lists.\<close>

lemma length_get_descendants: "length (get_descendants c) < size c"
proof (induction c)
  case (Category pk cs)
  have "length (concat (map (\<lambda>c. c # get_descendants c) cs)) \<le> size_list size cs"
    using Category.IH
  proof (induction cs)
    case Nil
    show ?case by simp
  next
    case (Cons c cs)
    from Cons.prems have "length (get_descendants c) < size c" by simp
    moreover from Cons.prems
    have "length (concat (map (\<lambda>c. c # get_descendants c) cs)) \<le> size_list size cs"
      by (intro Cons.IH) simp
    ultimately show ?case by simp
  qed
  then show ?case by simp
qed

text \<open>Each pass of a loop over categories joins one queryset per category visited.\<close>

lemma disjuncts_qs_or: "disjuncts (qs_or a b) = disjuncts a + disjuncts b"
  by (cases "(a, b)" rule: qs_or.cases) simp_all

lemma disjuncts_collect_loop: "disjuncts (collect_loop q ds) = disjuncts q + length ds"
  by (induction ds arbitrary: q) (simp_all add: disjuncts_qs_or)

lemma disjuncts_collect:
  "disjuncts (collect_categories_tree_products c) = Suc (length (get_descendants c))"
  by (simp add: collect_categories_tree_products_def disjuncts_collect_loop)

lemma disjuncts_products_loop:
  "disjuncts (products_loop q cs) =
     disjuncts q + sum_list (map (\<lambda>c. Suc (length (get_descendants c))) cs)"
  by (induction cs arbitrary: q) (simp_all add: disjuncts_qs_or disjuncts_collect)

text \<open>
  C8. Every loop of the four functions ends on every input, after one pass over it.
  \<^item> The revenue loop ends on any list of order lines; when it returns, it has made one
    addition for each line it selected, and \<open>length order_lines\<close> additions when the
    comparison selects every line.
  \<^item> The traversal of a category's descendants ends and lists fewer categories than the
    tree has nodes; the loop over them ends and joins one queryset per descendant.
  \<^item> The loops of \<open>delete_categories\<close> end; the first joins one queryset for each
    fetched category and each of its descendants, the two others emit one event per
    category and one per product.
  \<^item> \<open>get_products_ids_without_variants\<close> takes one id from each product of the list
    and returns at most one id per row of the product table.
\<close>

theorem loops_terminate:
  "revenue_loop_dom (add, ge, start_date, orders_dict, zero_taxed_money currency_code, order_lines)
   \<and> ((\<forall>l\<in>set order_lines. order_id l \<in> dom orders_dict) \<longrightarrow>
        calculate_revenue_for_variant (\<lambda>c. 0) (\<lambda>n p. Inr (Suc n)) (\<lambda>c s. Inr (sel c s))
            variant start_date order_lines orders_dict currency_code
          = Inr (length (filter
                   (\<lambda>l. sel (created_at (the (orders_dict (order_id l)))) start_date)
                   order_lines))
      \<and> calculate_revenue_for_variant (\<lambda>c. 0) (\<lambda>n p. Inr (Suc n)) (\<lambda>c s. Inr True)
            variant start_date order_lines orders_dict currency_code
          = Inr (length order_lines))
   \<and> get_descendants_dom category
   \<and> length (get_descendants category) < size category
   \<and> collect_loop_dom (CategoryProducts (cat_id category), get_descendants category)
   \<and> disjuncts (collect_categories_tree_products category)
       = Suc (length (get_descendants category))
   \<and> products_loop_dom (EmptyQuerySet, categories)
   \<and> disjuncts (products_loop EmptyQuerySet categories)
       = sum_list (map (\<lambda>c. Suc (length (get_descendants c))) categories)
   \<and> category_deleted_loop_dom (manager, webhooks, categories)
   \<and> length (category_deleted_loop manager webhooks categories) = length categories
   \<and> product_updated_loop_dom (manager, webhooks, products)
   \<and> length (product_updated_loop manager webhooks products) = length products
   \<and> length (get_products_ids_without_variants db products_list) \<le> length (product_table db)"
  by (simp add: revenue_loop_total get_descendants_total collect_loop_total
        products_loop_total category_deleted_loop_total product_updated_loop_total
        length_get_descendants disjuncts_collect disjuncts_products_loop
        category_deleted_loop_map product_updated_loop_map
        calculate_revenue_for_variant_def revenue_loop_counts
        revenue_loop_counts [where ge = "\<lambda>c s. True", simplified]
        get_products_ids_without_variants_def)

theorem loops_terminate_witness:
  "calculate_revenue_for_variant (\<lambda>c. 0) (\<lambda>n p. Inr (Suc n)) (\<lambda>c s. Inr (c \<ge> s))
       example_variant 15 example_counted_lines example_orders ''USD'' = Inr 2
   \<and> calculate_revenue_for_variant (\<lambda>c. 0) (\<lambda>n p. Inr (Suc n)) (\<lambda>c s. Inr True)
       example_variant 15 example_counted_lines example_orders ''USD'' = Inr 3
   \<and> revenue_loop_dom
       (\<lambda>a b. Inr (a + b), \<lambda>c s. Inr (c \<ge> s), 15, example_orders, 0, example_counted_lines)
   \<and> disjuncts (collect_categories_tree_products example_tree) = 3
   \<and> length (get_products_ids_without_variants example_database
         (product_table example_database)) \<le> 4"
proof -
  have present: "\<forall>l\<in>set example_counted_lines. order_id l \<in> dom example_orders"
    by (simp add: example_counted_lines_def example_orders_def)
  note t = loops_terminate
    [where order_lines = example_counted_lines and orders_dict = example_orders
       and add = "\<lambda>a b. Inr (a + b)" and ge = "\<lambda>c s. Inr (c \<ge> s)" and sel = "(\<ge>)"
       and start_date = 15 and zero_taxed_money = "\<lambda>c. 0" and currency_code = "''USD''"
       and variant = example_variant and category = example_tree
       and db = example_database and products_list = "product_table example_database"
       and categories = "[example_tree]" and manager = "()" and webhooks = "()"
       and products = "product_table example_database"]
  from t present
  have "calculate_revenue_for_variant (\<lambda>c. 0) (\<lambda>n p. Inr (Suc n)) (\<lambda>c s. Inr (c \<ge> s))
       example_variant 15 example_counted_lines example_orders ''USD''
        = Inr (length (filter
                   (\<lambda>l. created_at (the (example_orders (order_id l))) \<ge> 15)
                   example_counted_lines))"
    and "calculate_revenue_for_variant (\<lambda>c. 0) (\<lambda>n p. Inr (Suc n)) (\<lambda>c s. Inr True)
       example_variant 15 example_counted_lines example_orders ''USD''
        = Inr (length example_counted_lines)"
    by blast+
  moreover from t
  have "revenue_loop_dom
       (\<lambda>a b. Inr (a + b), \<lambda>c s. Inr (c \<ge> s), 15, example_orders, 0, example_counted_lines)"
    and "disjuncts (collect_categories_tree_products example_tree)
       = Suc (length (get_descendants example_tree))"
    and "length (get_products_ids_without_variants example_database
         (product_table example_database)) \<le> length (product_table example_database)"
    by blast+
  ultimately show ?thesis
    by (simp add: example_counted_lines_def example_orders_def example_tree_def
          example_database_def)
qed

end
